theory Spec2Isabelle
  imports Main "HOL-Library.Word"
begin

unbundle bit_operations_syntax

section \<open>Data model of \<^verbatim>\<open>src/vm.c\<close>\<close>

text \<open>
  The virtual machine keeps its state in two global arrays of \<^verbatim>\<open>uint16_t\<close>,
  \<^verbatim>\<open>memory[UINT16_MAX]\<close> and \<^verbatim>\<open>registers[R_COUNT]\<close>, and in the local
  \<^verbatim>\<open>running\<close> of \<^verbatim>\<open>main\<close>. The host console is part of the state as well:
  \<open>stdin\<close> is the script of characters that standard input still delivers (an exhausted
  script is end of file, and a key is pending exactly when the script is not empty),
  \<open>stdout\<close> collects the bytes written to standard output, and \<open>fopen_log\<close> the paths
  passed to \<^verbatim>\<open>fopen\<close>, in the order of the calls.
\<close>

type_synonym u16 = "16 word"
type_synonym byte = "8 word"

record vm =
  memory :: "nat \<Rightarrow> u16"
  registers :: "nat \<Rightarrow> u16"
  running :: bool
  stdin :: "byte list"
  stdout :: "byte list"
  fopen_log :: "string list"

text \<open>
  \<^verbatim>\<open>uint16_t memory[UINT16_MAX];\<close> declares \<open>UINT16_MAX = 65535\<close> cells, with the
  indices \<open>0 .. 65534\<close>. The cells of the model beyond \<open>MEMORY_SIZE\<close> are never touched:
  every access checks the index and an index outside the array is the fault
  \<open>OutOfBounds\<close>. \<^verbatim>\<open>abort()\<close> is the fault \<open>Abort\<close>. The register array has
  \<open>R_COUNT = 10\<close> cells and is only indexed by a three-bit field of the instruction or
  by one of the constants \<open>R_R0\<close>, \<open>R_R7\<close>, \<open>R_PC\<close>, \<open>R_COND\<close>, so its accesses need
  no check.
\<close>

definition UINT16_MAX :: nat where
  "UINT16_MAX = 65535"

definition MEMORY_SIZE :: nat where
  "MEMORY_SIZE = UINT16_MAX"

datatype fault = Abort | OutOfBounds

subsection \<open>The enumerations\<close>

definition R_R0 :: nat where "R_R0 = 0"
definition R_R7 :: nat where "R_R7 = 7"
definition R_PC :: nat where "R_PC = 8"
definition R_COND :: nat where "R_COND = 9"
definition R_COUNT :: nat where "R_COUNT = 10"

definition FL_POS :: u16 where "FL_POS = push_bit 0 1"
definition FL_ZRO :: u16 where "FL_ZRO = push_bit 1 1"
definition FL_NEG :: u16 where "FL_NEG = push_bit 2 1"

definition OP_BR :: u16 where "OP_BR = 0"
definition OP_ADD :: u16 where "OP_ADD = 1"
definition OP_LD :: u16 where "OP_LD = 2"
definition OP_ST :: u16 where "OP_ST = 3"
definition OP_JSR :: u16 where "OP_JSR = 4"
definition OP_AND :: u16 where "OP_AND = 5"
definition OP_LDR :: u16 where "OP_LDR = 6"
definition OP_STR :: u16 where "OP_STR = 7"
definition OP_RTI :: u16 where "OP_RTI = 8"
definition OP_NOT :: u16 where "OP_NOT = 9"
definition OP_LDI :: u16 where "OP_LDI = 10"
definition OP_STI :: u16 where "OP_STI = 11"
definition OP_JMP :: u16 where "OP_JMP = 12"
definition OP_RES :: u16 where "OP_RES = 13"
definition OP_LEA :: u16 where "OP_LEA = 14"
definition OP_TRAP :: u16 where "OP_TRAP = 15"

definition MR_KBSR :: u16 where "MR_KBSR = 0xFE00"
definition MR_KBDR :: u16 where "MR_KBDR = 0xFE02"

definition TRAP_GETC :: u16 where "TRAP_GETC = 0x20"
definition TRAP_OUT :: u16 where "TRAP_OUT = 0x21"
definition TRAP_PUTS :: u16 where "TRAP_PUTS = 0x22"
definition TRAP_IN :: u16 where "TRAP_IN = 0x23"
definition TRAP_PUTSP :: u16 where "TRAP_PUTSP = 0x24"
definition TRAP_HALT :: u16 where "TRAP_HALT = 0x25"

definition PC_START :: u16 where "PC_START = 0x3000"

subsection \<open>Helpers on words\<close>

text \<open>
  \<^verbatim>\<open>signExtend\<close>: the operands are promoted to \<^verbatim>\<open>int\<close>, and the assignment back to
  the \<^verbatim>\<open>uint16_t\<close> parameter keeps the low 16 bits, which is what the shift on
  \<open>16 word\<close> does. The callers pass the bit counts 5, 6, 9 and 11; a bit count of 0
  would shift by \<open>-1\<close> in C and is outside the model.
\<close>

definition signExtend :: "u16 \<Rightarrow> nat \<Rightarrow> u16" where
  "signExtend x bitCount =
     (if drop_bit (bitCount - 1) x AND 1 \<noteq> 0
      then x OR push_bit bitCount 0xFFFF
      else x)"

definition swap16 :: "u16 \<Rightarrow> u16" where
  "swap16 x = push_bit 8 x OR drop_bit 8 x"

definition set_reg :: "nat \<Rightarrow> u16 \<Rightarrow> vm \<Rightarrow> vm" where
  "set_reg r v s = s\<lparr>registers := (registers s)(r := v)\<rparr>"

definition updateFlgs :: "nat \<Rightarrow> vm \<Rightarrow> vm" where
  "updateFlgs r s =
     (if registers s r = 0 then set_reg R_COND FL_ZRO s
      else if drop_bit 15 (registers s r) \<noteq> 0 then set_reg R_COND FL_NEG s
      else set_reg R_COND FL_POS s)"

subsection \<open>The host console\<close>

text \<open>
  \<^verbatim>\<open>check_key\<close> asks the console whether a key is waiting (the wait of up to one
  second inside it is not part of the model); \<^verbatim>\<open>getchar\<close> returns the next
  character as an \<^verbatim>\<open>int\<close> in \<open>0 .. 255\<close>, or \<open>EOF = -1\<close>.
\<close>

definition EOF :: int where
  "EOF = - 1"

definition check_key :: "vm \<Rightarrow> bool" where
  "check_key s = (stdin s \<noteq> [])"

definition getchar :: "vm \<Rightarrow> int \<times> vm" where
  "getchar s =
     (case stdin s of
        [] \<Rightarrow> (EOF, s)
      | c # cs \<Rightarrow> (uint c, s\<lparr>stdin := cs\<rparr>))"

definition putc :: "byte \<Rightarrow> vm \<Rightarrow> vm" where
  "putc c s = s\<lparr>stdout := stdout s @ [c]\<rparr>"

subsection \<open>Memory access\<close>

definition set_mem :: "nat \<Rightarrow> u16 \<Rightarrow> vm \<Rightarrow> fault + vm" where
  "set_mem i v s =
     (if i < MEMORY_SIZE then Inr (s\<lparr>memory := (memory s)(i := v)\<rparr>)
      else Inl OutOfBounds)"

definition get_mem :: "nat \<Rightarrow> vm \<Rightarrow> fault + u16" where
  "get_mem i s = (if i < MEMORY_SIZE then Inr (memory s i) else Inl OutOfBounds)"

definition mem_write :: "u16 \<Rightarrow> u16 \<Rightarrow> vm \<Rightarrow> fault + vm" where
  "mem_write address val s = set_mem (unat address) val s"

definition mem_read :: "u16 \<Rightarrow> vm \<Rightarrow> fault + (u16 \<times> vm)" where
  "mem_read addr s =
     (case
        (if addr = MR_KBSR then
           (if check_key s then
              (case set_mem (unat MR_KBSR) (push_bit 15 1) s of
                 Inl e \<Rightarrow> Inl e
               | Inr s1 \<Rightarrow>
                   (case getchar s1 of (c, s2) \<Rightarrow> set_mem (unat MR_KBDR) (word_of_int c) s2))
            else set_mem (unat MR_KBSR) 0 s)
         else Inr s)
      of
        Inl e \<Rightarrow> Inl e
      | Inr s' \<Rightarrow>
          (case get_mem (unat addr) s' of
             Inl e \<Rightarrow> Inl e
           | Inr v \<Rightarrow> Inr (v, s')))"

definition bindE :: "fault + 'a \<Rightarrow> ('a \<Rightarrow> fault + 'b) \<Rightarrow> fault + 'b" where
  "bindE r f = (case r of Inl e \<Rightarrow> Inl e | Inr x \<Rightarrow> f x)"

section \<open>The opcode handlers of \<^verbatim>\<open>main\<close>\<close>

text \<open>
  Each case of the \<^verbatim>\<open>switch (op)\<close> is one function of the instruction word and the
  state. The register fields are masked to three bits, so the index of a
  general-purpose register is always below 8. Arithmetic on \<^verbatim>\<open>uint16_t\<close> values is
  done in \<^verbatim>\<open>int\<close> and stored back into 16 bits: the word operations.
\<close>

definition op_add :: "u16 \<Rightarrow> vm \<Rightarrow> vm" where
  "op_add instr s =
     (let r0 = unat (drop_bit 9 instr AND 0x7);
          r1 = unat (drop_bit 6 instr AND 0x7);
          imm_flag = drop_bit 5 instr AND 0x1
      in updateFlgs r0
           (if imm_flag \<noteq> 0
            then (let imm5 = signExtend (instr AND 0x1F) 5
                  in set_reg r0 (registers s r1 + imm5) s)
            else (let r2 = unat (instr AND 0x7)
                  in set_reg r0 (registers s r1 + registers s r2) s)))"

definition op_and :: "u16 \<Rightarrow> vm \<Rightarrow> vm" where
  "op_and instr s =
     (let r0 = unat (drop_bit 9 instr AND 0x7);
          r1 = unat (drop_bit 6 instr AND 0x7);
          imm_flag = drop_bit 5 instr AND 0x1
      in updateFlgs r0
           (if imm_flag \<noteq> 0
            then (let imm5 = signExtend (instr AND 0x1F) 5
                  in set_reg r0 (registers s r1 AND imm5) s)
            else (let r2 = unat (instr AND 0x7)
                  in set_reg r0 (registers s r1 AND registers s r2) s)))"

definition op_not :: "u16 \<Rightarrow> vm \<Rightarrow> vm" where
  "op_not instr s =
     (let r0 = unat (drop_bit 9 instr AND 0x7);
          r1 = unat (drop_bit 6 instr AND 0x7)
      in updateFlgs r0 (set_reg r0 (NOT (registers s r1)) s))"

definition op_br :: "u16 \<Rightarrow> vm \<Rightarrow> vm" where
  "op_br instr s =
     (let pcOffset = signExtend (instr AND 0x1FF) 9;
          condFlag = drop_bit 9 instr AND 0x7
      in if condFlag AND registers s R_COND \<noteq> 0
         then set_reg R_PC (registers s R_PC + pcOffset) s
         else s)"

definition op_jmp :: "u16 \<Rightarrow> vm \<Rightarrow> vm" where
  "op_jmp instr s =
     (let r1 = unat (drop_bit 6 instr AND 0x7)
      in set_reg R_PC (registers s r1) s)"

definition op_jsr :: "u16 \<Rightarrow> vm \<Rightarrow> vm" where
  "op_jsr instr s =
     (let longFlag = drop_bit 11 instr AND 1;
          s1 = set_reg R_R7 (registers s R_PC) s
      in if longFlag \<noteq> 0
         then (let longPcOffset = signExtend (instr AND 0x7FF) 11
               in set_reg R_PC (registers s1 R_PC + longPcOffset) s1)
         else (let r1 = unat (drop_bit 6 instr AND 0x7)
               in set_reg R_PC (registers s1 R_PC + registers s1 r1) s1))"

definition op_ld :: "u16 \<Rightarrow> vm \<Rightarrow> fault + vm" where
  "op_ld instr s =
     (let r0 = unat (drop_bit 9 instr AND 0x7);
          pcOffset = signExtend (instr AND 0x1FF) 9
      in bindE (mem_read (registers s R_PC + pcOffset) s)
           (\<lambda>(v, s1). Inr (updateFlgs r0 (set_reg r0 v s1))))"

definition op_ldi :: "u16 \<Rightarrow> vm \<Rightarrow> fault + vm" where
  "op_ldi instr s =
     (let r0 = unat (drop_bit 9 instr AND 0x7);
          pcOffset = signExtend (instr AND 0x1FF) 9
      in bindE (mem_read (registers s R_PC + pcOffset) s)
           (\<lambda>(a, s1). bindE (mem_read a s1)
              (\<lambda>(v, s2). Inr (updateFlgs r0 (set_reg r0 v s2)))))"

definition op_ldr :: "u16 \<Rightarrow> vm \<Rightarrow> fault + vm" where
  "op_ldr instr s =
     (let r0 = unat (drop_bit 9 instr AND 0x7);
          r1 = unat (drop_bit 6 instr AND 0x7);
          offset = signExtend (instr AND 0x3F) 6
      in bindE (mem_read (registers s r1 + offset) s)
           (\<lambda>(v, s1). Inr (updateFlgs r0 (set_reg r0 v s1))))"

definition op_lea :: "u16 \<Rightarrow> vm \<Rightarrow> vm" where
  "op_lea instr s =
     (let r0 = unat (drop_bit 9 instr AND 0x7);
          pcOffset = signExtend (instr AND 0x1FF) 9
      in updateFlgs r0 (set_reg r0 (registers s R_PC + pcOffset) s))"

definition op_st :: "u16 \<Rightarrow> vm \<Rightarrow> fault + vm" where
  "op_st instr s =
     (let r0 = unat (drop_bit 9 instr AND 0x7);
          pcOffset = signExtend (instr AND 0x1FF) 9
      in mem_write (registers s R_PC + pcOffset) (registers s r0) s)"

text \<open>
  \<^verbatim>\<open>OP_STI\<close> decodes \<open>r0\<close> as its siblings do, and then passes \<^verbatim>\<open>registers[0]\<close> to
  \<^verbatim>\<open>mem_write\<close>.
\<close>

definition op_sti :: "u16 \<Rightarrow> vm \<Rightarrow> fault + vm" where
  "op_sti instr s =
     (let r0 = unat (drop_bit 9 instr AND 0x7);
          pcOffset = signExtend (instr AND 0x1FF) 9
      in bindE (mem_read (registers s R_PC + pcOffset) s)
           (\<lambda>(a, s1). mem_write a (registers s1 0) s1))"

definition op_str :: "u16 \<Rightarrow> vm \<Rightarrow> fault + vm" where
  "op_str instr s =
     (let r0 = unat (drop_bit 9 instr AND 0x7);
          r1 = unat (drop_bit 6 instr AND 0x7);
          offset = signExtend (instr AND 0x3F) 6
      in mem_write (registers s r1 + offset) (registers s r0) s)"

section \<open>The trap routines\<close>

text \<open>
  Output goes through \<^verbatim>\<open>putc\<close>, which writes its argument converted to
  \<^verbatim>\<open>unsigned char\<close>. \<^verbatim>\<open>fflush\<close> does not change what is written.
\<close>

definition bytes_of :: "string \<Rightarrow> byte list" where
  "bytes_of str = map (\<lambda>c. word_of_nat (of_char c)) str"

definition printf :: "string \<Rightarrow> vm \<Rightarrow> vm" where
  "printf str s = s\<lparr>stdout := stdout s @ bytes_of str\<rparr>"

definition trap_getc :: "vm \<Rightarrow> vm" where
  "trap_getc s = (case getchar s of (c, s1) \<Rightarrow> set_reg R_R0 (word_of_int c) s1)"

definition trap_out :: "vm \<Rightarrow> vm" where
  "trap_out s = putc (ucast (registers s R_R0)) s"

text \<open>
  \<^verbatim>\<open>TRAP_PUTS\<close> and \<^verbatim>\<open>TRAP_PUTSP\<close> walk a pointer \<^verbatim>\<open>uint16_t* c\<close> from
  \<^verbatim>\<open>memory + registers[R_R0]\<close>. The pointer is not a 16-bit address: it does not wrap,
  and dereferencing it at or past the end of the array is the fault. \<open>c\<close> is the index
  of the cell the pointer stands on.
\<close>

function puts_loop :: "nat \<Rightarrow> vm \<Rightarrow> fault + vm" where
  "puts_loop c s =
     (if c < MEMORY_SIZE
      then (if memory s c \<noteq> 0
            then puts_loop (Suc c) (putc (ucast (memory s c)) s)
            else Inr s)
      else Inl OutOfBounds)"
  by pat_completeness auto
termination
  by (relation "measure (\<lambda>(c, s). MEMORY_SIZE - c)") auto

definition trap_puts :: "vm \<Rightarrow> fault + vm" where
  "trap_puts s = puts_loop (unat (registers s R_R0)) s"

text \<open>
  \<^verbatim>\<open>TRAP_IN\<close> holds the character in a \<^verbatim>\<open>char\<close>, which is signed on the
  compilers the file is written for (it includes \<^verbatim>\<open>Windows.h\<close> and
  \<^verbatim>\<open>conio.h\<close>): the conversion to \<^verbatim>\<open>uint16_t\<close> extends the sign.
\<close>

definition trap_in :: "vm \<Rightarrow> vm" where
  "trap_in s =
     (let s1 = printf '' '' s
      in case getchar s1 of
           (r, s2) \<Rightarrow>
             (let c = (word_of_int r :: byte);
                  s3 = putc c s2
              in set_reg R_R0 (word_of_int (sint c)) s3))"

function putsp_loop :: "nat \<Rightarrow> vm \<Rightarrow> fault + vm" where
  "putsp_loop c s =
     (if c < MEMORY_SIZE
      then (if memory s c \<noteq> 0
            then (let char1 = (ucast (memory s c AND 0xFF) :: byte);
                      s1 = putc char1 s;
                      char2 = (ucast (drop_bit 8 (memory s c)) :: byte);
                      s2 = (if char2 \<noteq> 0 then putc char2 s1 else s1)
                  in putsp_loop (Suc c) s2)
            else Inr s)
      else Inl OutOfBounds)"
  by pat_completeness auto
termination
  by (relation "measure (\<lambda>(c, s). MEMORY_SIZE - c)") auto

definition trap_putsp :: "vm \<Rightarrow> fault + vm" where
  "trap_putsp s = putsp_loop (unat (registers s R_R0)) s"

definition trap_halt :: "vm \<Rightarrow> vm" where
  "trap_halt s = (printf (''Done!'' @ [CHR 0x0A]) s)\<lparr>running := False\<rparr>"

text \<open>The inner \<^verbatim>\<open>switch (instr & 0xFF)\<close> has six cases and no default.\<close>

definition op_trap :: "u16 \<Rightarrow> vm \<Rightarrow> fault + vm" where
  "op_trap instr s =
     (let vect = instr AND 0xFF
      in if vect = TRAP_GETC then Inr (trap_getc s)
         else if vect = TRAP_OUT then Inr (trap_out s)
         else if vect = TRAP_PUTS then trap_puts s
         else if vect = TRAP_IN then Inr (trap_in s)
         else if vect = TRAP_PUTSP then trap_putsp s
         else if vect = TRAP_HALT then Inr (trap_halt s)
         else Inr s)"

section \<open>The fetch loop\<close>

definition exec :: "u16 \<Rightarrow> vm \<Rightarrow> fault + vm" where
  "exec instr s =
     (let op = drop_bit 12 instr
      in if op = OP_ADD then Inr (op_add instr s)
         else if op = OP_AND then Inr (op_and instr s)
         else if op = OP_NOT then Inr (op_not instr s)
         else if op = OP_BR then Inr (op_br instr s)
         else if op = OP_JMP then Inr (op_jmp instr s)
         else if op = OP_JSR then Inr (op_jsr instr s)
         else if op = OP_LD then op_ld instr s
         else if op = OP_LDI then op_ldi instr s
         else if op = OP_LDR then op_ldr instr s
         else if op = OP_LEA then Inr (op_lea instr s)
         else if op = OP_ST then op_st instr s
         else if op = OP_STI then op_sti instr s
         else if op = OP_STR then op_str instr s
         else if op = OP_TRAP then op_trap instr s
         else if op = OP_RES then Inl Abort
         else if op = OP_RTI then Inl Abort
         else Inl Abort)"

text \<open>
  One pass of the body of \<^verbatim>\<open>while (running)\<close>: the program counter is incremented
  as the argument \<^verbatim>\<open>registers[R_PC]++\<close> is evaluated, before \<^verbatim>\<open>mem_read\<close> runs.
\<close>

definition step :: "vm \<Rightarrow> fault + vm" where
  "step s =
     (let pc = registers s R_PC;
          s1 = set_reg R_PC (pc + 1) s
      in bindE (mem_read pc s1) (\<lambda>(instr, s2). exec instr s2))"

text \<open>
  The loop may run forever, so it takes fuel: \<open>None\<close> is "still running when the fuel
  ran out", \<open>Some (Inr s)\<close> is the state in which the loop was left with
  \<^verbatim>\<open>running = 0\<close>, and \<open>Some (Inl e)\<close> is a fault.
\<close>

fun run :: "nat \<Rightarrow> vm \<Rightarrow> (fault + vm) option" where
  "run 0 s = (if running s then None else Some (Inr s))"
| "run (Suc n) s =
     (if running s
      then (case step s of Inl e \<Rightarrow> Some (Inl e) | Inr s' \<Rightarrow> run n s')
      else Some (Inr s))"

section \<open>Loading the images\<close>

text \<open>
  A file is the list of its bytes. The file system maps a path to its file, or to
  \<open>None\<close> where \<^verbatim>\<open>fopen\<close> fails. The host is little-endian (the file includes
  \<^verbatim>\<open>Windows.h\<close>): the first byte of a 16-bit element that \<^verbatim>\<open>fread\<close> stores is
  its low byte.
\<close>

type_synonym image = "byte list"
type_synonym filesystem = "string \<Rightarrow> image option"

definition word_of_bytes :: "byte \<Rightarrow> byte \<Rightarrow> u16" where
  "word_of_bytes b0 b1 = ucast b0 OR push_bit 8 (ucast b1)"

text \<open>
  \<^verbatim>\<open>fread(p, sizeof(uint16_t), n, f)\<close>: copies at most \<open>n\<close> elements from the file
  into the cells from \<open>p\<close> on, and returns the number of complete elements. The bytes
  of an incomplete last element are copied as well: a single trailing byte replaces the
  low byte of the next cell and is not counted.
\<close>

fun fread_words :: "nat \<Rightarrow> nat \<Rightarrow> byte list \<Rightarrow> (nat \<Rightarrow> u16) \<Rightarrow> nat \<times> (nat \<Rightarrow> u16)" where
  "fread_words p n [] m = (0, m)"
| "fread_words p n [b] m =
     (0, if n = 0 then m else m(p := (m p AND 0xFF00) OR ucast b))"
| "fread_words p n (b0 # b1 # bs) m =
     (if n = 0 then (0, m)
      else (case fread_words (Suc p) (n - 1) bs (m(p := word_of_bytes b0 b1)) of
              (k, m') \<Rightarrow> (Suc k, m')))"

fun swap_loop :: "nat \<Rightarrow> nat \<Rightarrow> (nat \<Rightarrow> u16) \<Rightarrow> (nat \<Rightarrow> u16)" where
  "swap_loop p 0 m = m"
| "swap_loop p (Suc n) m = swap_loop (Suc p) n (m(p := swap16 (m p)))"

text \<open>
  \<^verbatim>\<open>readImageFile\<close>: when the file has fewer than two bytes the first \<^verbatim>\<open>fread\<close>
  leaves the local \<^verbatim>\<open>origin\<close> without a complete value; whatever it holds, the file
  is then at its end, the second \<^verbatim>\<open>fread\<close> copies nothing and the loop does not run,
  so memory is left as it is. Otherwise at most \<open>UINT16_MAX - origin\<close> elements are
  copied to the cells from \<open>origin\<close> on, all inside the array, and each complete element
  is then swapped in place.
\<close>

definition readImageFile :: "image \<Rightarrow> vm \<Rightarrow> vm" where
  "readImageFile f s =
     (case f of
        b0 # b1 # rest \<Rightarrow>
          (let origin = swap16 (word_of_bytes b0 b1);
               maxRead = UINT16_MAX - unat origin;
               p = unat origin
           in case fread_words p maxRead rest (memory s) of
                (read, m1) \<Rightarrow> s\<lparr>memory := swap_loop p read m1\<rparr>)
      | _ \<Rightarrow> s)"

definition readImage :: "filesystem \<Rightarrow> string \<Rightarrow> vm \<Rightarrow> bool \<times> vm" where
  "readImage fs imagePath s =
     (let s1 = s\<lparr>fopen_log := fopen_log s @ [imagePath]\<rparr>
      in case fs imagePath of
           None \<Rightarrow> (False, s1)
         | Some f \<Rightarrow> (True, readImageFile f s1))"

text \<open>
  The start of \<^verbatim>\<open>main\<close>: \<open>Inl (code, s)\<close> is \<^verbatim>\<open>exit(code)\<close> in the state \<open>s\<close>,
  \<open>Inr s\<close> is the state in which the loop over the arguments is left. \<open>argv\<close> is the
  whole argument vector, the program's name first.
\<close>

fun load_loop :: "filesystem \<Rightarrow> string list \<Rightarrow> vm \<Rightarrow> (int \<times> vm) + vm" where
  "load_loop fs [] s = Inr s"
| "load_loop fs (a # as) s =
     (case readImage fs a s of
        (ok, s1) \<Rightarrow>
          if \<not> ok
          then Inl (1, printf (''Failed to load image: '' @ a @ [CHR 0x0A]) s1)
          else load_loop fs as s1)"

definition main_load :: "filesystem \<Rightarrow> string list \<Rightarrow> vm \<Rightarrow> (int \<times> vm) + vm" where
  "main_load fs argv s =
     (if length argv < 2
      then Inl (2, printf (''main.exe <image-file1> ... '' @ [CHR 0x0A]) s)
      else load_loop fs (tl argv) s)"

section \<open>Concrete machine states\<close>

text \<open>
  \<open>vm0\<close> is the machine as \<^verbatim>\<open>main\<close> enters the loop with nothing loaded: the arrays
  are zero-initialised globals and the program counter is \<open>PC_START\<close>. The other states
  hold the short programs on which single instructions are traced.
\<close>

definition vm0 :: vm where
  "vm0 = \<lparr>memory = (\<lambda>_. 0), registers = (\<lambda>_. 0)(R_PC := PC_START), running = True,
           stdin = [], stdout = [], fopen_log = []\<rparr>"

text \<open>\<open>0xB201\<close> is \<^verbatim>\<open>STI R1, #1\<close>; the pointer cell \<open>0x3002\<close> holds \<open>0x4000\<close>.\<close>

definition sti_state :: vm where
  "sti_state = vm0\<lparr>memory := (\<lambda>_. 0)(0x3000 := 0xB201, 0x3002 := 0x4000),
                   registers := (\<lambda>_. 0)(R_PC := PC_START, 0 := 0x1111, 1 := 0x2222)\<rparr>"

text \<open>\<open>0x4040\<close> is \<^verbatim>\<open>JSRR R1\<close>: bit 11 is 0 and the register field is 1.\<close>

definition jsrr_state :: vm where
  "jsrr_state = vm0\<lparr>memory := (\<lambda>_. 0)(0x3000 := 0x4040),
                    registers := (\<lambda>_. 0)(R_PC := PC_START, 1 := 0x5000)\<rparr>"

text \<open>\<open>0xF0FF\<close> is \<^verbatim>\<open>TRAP 0xFF\<close>, followed by \<^verbatim>\<open>TRAP 0x25\<close> (HALT).\<close>

definition bad_trap_state :: vm where
  "bad_trap_state = vm0\<lparr>memory := (\<lambda>_. 0)(0x3000 := 0xF0FF, 0x3001 := 0xF025)\<rparr>"

text \<open>
  The bytes that one pass of the \<^verbatim>\<open>TRAP_PUTSP\<close> loop writes for the cell \<open>w\<close>: the low
  byte, then the high byte when it is not zero.
\<close>

definition packed_chars :: "u16 \<Rightarrow> byte list" where
  "packed_chars w =
     (ucast (w AND 0xFF) :: byte)
     # (if (ucast (drop_bit 8 w) :: byte) \<noteq> 0 then [ucast (drop_bit 8 w)] else [])"

text \<open>
  A string of three cells that lies across the keyboard registers, from \<open>0xFDFF\<close> to
  \<open>0xFE01\<close>, ended by the zero cell \<open>0xFE02\<close>, with a key pending on the console.
\<close>

definition puts_state :: vm where
  "puts_state = vm0\<lparr>memory := (\<lambda>_. 0)(0xFDFF := 0x4948, 0xFE00 := 0x0021, 0xFE01 := 0x4A4B),
                    registers := (\<lambda>_. 0)(R_PC := PC_START, R_R0 := 0xFDFF),
                    stdin := [0x61]\<rparr>"

text \<open>
  Two file systems with a single image file, \<^verbatim>\<open>a.obj\<close> or \<^verbatim>\<open>c.obj\<close>: the origin
  \<open>0x3000\<close> and the instruction \<open>0xF025\<close>, big-endian. \<^verbatim>\<open>a.obj\<close> has one more byte,
  \<open>0x41\<close>, after its last complete word.
\<close>

definition fs_a :: filesystem where
  "fs_a = (\<lambda>p. if p = ''a.obj'' then Some [0x30, 0x00, 0xF0, 0x25, 0x41] else None)"

definition fs_c :: filesystem where
  "fs_c = (\<lambda>p. if p = ''c.obj'' then Some [0x30, 0x00, 0xF0, 0x25] else None)"

text \<open>
  A state in the middle of a cycle, the program counter already incremented to
  \<open>0x3001\<close>: the cell \<open>0x3002\<close> holds \<open>0x8001\<close>, and \<open>R1\<close> holds \<open>0x3000\<close>. On it
  \<open>0x2401\<close> is \<^verbatim>\<open>LD R2, #1\<close>, \<open>0xA601\<close> is \<^verbatim>\<open>LDI R3, #1\<close> and \<open>0x6842\<close> is
  \<^verbatim>\<open>LDR R4, R1, #2\<close>; all three address the cell \<open>0x3002\<close>.
\<close>

definition load_state :: vm where
  "load_state = vm0\<lparr>memory := (\<lambda>_. 0)(0x3002 := 0x8001),
                    registers := (\<lambda>_. 0)(R_PC := 0x3001, 1 := 0x3000)\<rparr>"

text \<open>
  Memory without a zero cell: every cell holds \<open>0x41\<close>, and \<open>R0\<close> names the cell
  \<open>0x3000\<close>. In \<open>last_cell_state\<close> only the last cell of the array, \<open>0xFFFE\<close>, is not
  zero, and \<open>R0\<close> names it.
\<close>

definition unterminated_state :: vm where
  "unterminated_state = vm0\<lparr>memory := (\<lambda>_. 0x41),
                            registers := (\<lambda>_. 0)(R_PC := PC_START, R_R0 := 0x3000)\<rparr>"

definition last_cell_state :: vm where
  "last_cell_state = vm0\<lparr>memory := (\<lambda>_. 0)(0xFFFE := 0x41),
                         registers := (\<lambda>_. 0)(R_PC := PC_START, R_R0 := 0xFFFE)\<rparr>"

text \<open>
  \<open>flags_match dr s\<close>: the condition register of \<open>s\<close> holds exactly the flag that the
  value of register \<open>dr\<close> calls for.
\<close>

definition flags_match :: "nat \<Rightarrow> vm \<Rightarrow> bool" where
  "flags_match dr s =
     (registers s R_COND \<in> {FL_POS, FL_ZRO, FL_NEG}
      \<and> (registers s R_COND = FL_ZRO) = (registers s dr = 0)
      \<and> (registers s R_COND = FL_NEG) = bit (registers s dr) 15
      \<and> (registers s R_COND = FL_POS) = (registers s dr \<noteq> 0 \<and> \<not> bit (registers s dr) 15))"

lemmas enum_defs = R_R0_def R_R7_def R_PC_def R_COND_def FL_POS_def FL_ZRO_def FL_NEG_def
  OP_BR_def OP_ADD_def OP_LD_def OP_ST_def OP_JSR_def OP_AND_def OP_LDR_def OP_STR_def
  OP_RTI_def OP_NOT_def OP_LDI_def OP_STI_def OP_JMP_def OP_RES_def OP_LEA_def OP_TRAP_def
  MR_KBSR_def MR_KBDR_def TRAP_GETC_def TRAP_OUT_def TRAP_PUTS_def TRAP_IN_def
  TRAP_PUTSP_def TRAP_HALT_def PC_START_def MEMORY_SIZE_def UINT16_MAX_def

lemmas access_defs = mem_read_def mem_write_def set_mem_def get_mem_def check_key_def
  getchar_def bindE_def set_reg_def

section \<open>Sign extension\<close>

lemma drop_bit_and_1_iff: "(drop_bit n (x::u16) AND 1 \<noteq> 0) = bit x n"
  by (simp add: and_one_eq bit_iff_odd_drop_bit odd_iff_mod_2_eq_one)

lemma signExtend_or_mask:
  "signExtend f w = (if bit f (w - 1) then f OR NOT (mask w) else f)"
proof -
  have ones: "(0xFFFF :: u16) = - 1" by simp
  have "push_bit w (- 1 :: u16) = NOT (mask w)"
    by (rule bit_word_eqI) (auto simp add: bit_simps)
  then show ?thesis
    unfolding signExtend_def drop_bit_and_1_iff ones by simp
qed

lemma field_high_bits:
  assumes "(f::u16) < 2 ^ w" "w \<le> n"
  shows "\<not> bit f n"
proof -
  have "take_bit w f = f" using assms(1)
    by (simp add: mod_word_less take_bit_eq_mod)
  then show ?thesis using assms(2)
    by (metis bit_take_bit_iff not_le)
qed

lemma signExtend_signed_take_bit:
  assumes "0 < w" "f < 2 ^ w"
  shows "signExtend f w = signed_take_bit (w - 1) f"
proof (rule bit_word_eqI)
  fix n assume n: "n < LENGTH(16)"
  have hi: "\<And>k. w \<le> k \<Longrightarrow> \<not> bit f k" using field_high_bits[OF assms(2)] .
  show "bit (signExtend f w) n = bit (signed_take_bit (w - 1) f) n"
  proof (cases "n < w")
    case True
    then have "min (w - 1) n = n \<or> (n = w - 1)" by auto
    then show ?thesis using True n
      by (auto simp add: signExtend_or_mask bit_simps min_def)
  next
    case False
    then have "min (w - 1) n = w - 1" using assms(1) by auto
    then show ?thesis using False n hi[of n]
      by (auto simp add: signExtend_or_mask bit_simps)
  qed
qed

lemma sint_signed_take_bit_field:
  assumes "0 < w" "w \<le> 16"
  shows "sint (signed_take_bit (w - 1) (f::u16)) = signed_take_bit (w - 1) (uint f)"
proof (rule bit_eqI)
  fix n
  show "bit (sint (signed_take_bit (w - 1) f)) n = bit (signed_take_bit (w - 1) (uint f)) n"
    using assms
    by (auto simp add: bit_simps min_def)
qed

lemma signed_take_bit_int_value:
  assumes "0 < w" "0 \<le> k" "k < 2 ^ w"
  shows "signed_take_bit (w - 1) (k::int) = (if 2 ^ (w - 1) \<le> k then k - 2 ^ w else k)"
proof -
  obtain m where w: "w = Suc m" using assms(1) by (cases w) auto
  have two: "(2::int) ^ w = 2 * 2 ^ m" by (simp add: w)
  show ?thesis
  proof (cases "2 ^ m \<le> k")
    case True
    have "(k + 2 ^ m - 2 ^ w) mod 2 ^ w = k + 2 ^ m - 2 ^ w"
      using True assms two by simp
    then have "(k + 2 ^ m) mod 2 ^ w = k + 2 ^ m - 2 ^ w"
      by (simp only: minus_mod_self2)
    then show ?thesis using True
      by (simp add: signed_take_bit_eq_take_bit_shift take_bit_eq_mod w)
  next
    case False
    then have "(k + 2 ^ m) mod 2 ^ w = k + 2 ^ m"
      using assms two by simp
    then show ?thesis using False
      by (simp add: signed_take_bit_eq_take_bit_shift take_bit_eq_mod w)
  qed
qed

lemma sint_signExtend:
  assumes "0 < w" "w \<le> 16" "f < 2 ^ w"
  shows "sint (signExtend f w) = (if 2 ^ (w - 1) \<le> uint f then uint f - 2 ^ w else uint f)"
proof -
  have "uint f < 2 ^ w"
    using assms(2,3) less_mask_eq mask_eq_iff by auto
  then show ?thesis
    using assms(1,2)
    by (simp only: signExtend_signed_take_bit[OF assms(1,3)] sint_signed_take_bit_field
       signed_take_bit_int_value[OF assms(1) uint_ge_0])
qed

text \<open>
  C7. For a bit width \<open>w\<close> of 5, 6, 9 or 11 and a field value \<open>f < 2 ^ w\<close>, the 16-bit
  word \<open>signExtend f w\<close> read as two's complement is the value of \<open>f\<close> read as a
  \<open>w\<close>-bit two's-complement number. When bit \<open>w - 1\<close> of \<open>f\<close> is 1, every bit of the
  result from \<open>w\<close> up is 1 and the bits below are those of \<open>f\<close>; when it is 0, the
  result is \<open>f\<close>. The two examples of the specification hold:
  \<open>signExtend 0b11111 5 = 0xFFFF\<close> and \<open>signExtend 0b01111 5 = 0x000F\<close>.
\<close>

theorem signExtend_twos_complement:
  assumes "w \<in> {5, 6, 9, 11}" and "f < 2 ^ w"
  shows "sint (signExtend f w) = (if 2 ^ (w - 1) \<le> uint f then uint f - 2 ^ w else uint f)
       \<and> (bit f (w - 1) \<longrightarrow> (\<forall>n<16. bit (signExtend f w) n = (w \<le> n \<or> bit f n)))
       \<and> (\<not> bit f (w - 1) \<longrightarrow> signExtend f w = f)
       \<and> signExtend 0x1F 5 = 0xFFFF \<and> signExtend 0x0F 5 = 0x000F"
proof -
  have w: "0 < w" "w \<le> 16" using assms(1) by auto
  have "bit (f OR NOT (mask w)) n = (w \<le> n \<or> bit f n)" if "n < 16" for n
    using that by (auto simp add: bit_simps)
  then have "bit f (w - 1) \<longrightarrow> (\<forall>n<16. bit (signExtend f w) n = (w \<le> n \<or> bit f n))"
    by (simp add: signExtend_or_mask)
  moreover have "\<not> bit f (w - 1) \<longrightarrow> signExtend f w = f"
    by (simp add: signExtend_or_mask)
  moreover have "signExtend 0x1F 5 = 0xFFFF" "signExtend 0x0F 5 = 0x000F"
    by (simp_all add: signExtend_def)
  ultimately show ?thesis
    using sint_signExtend[OF w assms(2)] by blast
qed

theorem signExtend_twos_complement_witness:
  "(5::nat) \<in> {5, 6, 9, 11} \<and> (0x1F::u16) < 2 ^ 5 \<and> (0x0F::u16) < 2 ^ 5
   \<and> bit (0x1F::u16) (5 - 1) \<and> \<not> bit (0x0F::u16) (5 - 1)
   \<and> sint (signExtend 0x1F 5) = - 1 \<and> sint (signExtend 0x0F 5) = 15
   \<and> (7::nat) < 16 \<and> bit (signExtend 0x1F 5) 7 \<and> \<not> bit (0x1F::u16) 7
   \<and> signExtend 0x0F 5 = 0x0F"
proof -
  have a: "(5::nat) \<in> {5, 6, 9, 11}" by simp
  have b: "(0x1F::u16) < 2 ^ 5" "(0x0F::u16) < 2 ^ 5" by simp_all
  have c: "bit (0x1F::u16) (5 - 1)" "\<not> bit (0x0F::u16) (5 - 1)" "\<not> bit (0x1F::u16) 7"
    by (simp_all add: bit_iff_odd)
  show ?thesis
    using a b c signExtend_twos_complement[OF a b(1)] signExtend_twos_complement[OF a b(2)]
    by simp
qed


section \<open>The memory array\<close>

lemma address_below_top_in_bounds:
  assumes "a \<noteq> 0xFFFF"
  shows "mem_write a v s = Inr (s\<lparr>memory := (memory s)(unat a := v)\<rparr>)"
proof -
  have "unat a \<noteq> 65535"
  proof
    assume "unat a = 65535"
    then have "word_of_nat (unat a) = (word_of_nat 65535 :: u16)" by simp
    then show False using assms by simp
  qed
  moreover have "unat a < 2 ^ 16" using unsigned_less[of a] by simp
  ultimately have "unat a < 65535" by simp
  then show ?thesis by (simp add: mem_write_def set_mem_def enum_defs)
qed

text \<open>
  C3. The array has 65535 cells, not 65536: the address \<open>0xFFFF\<close> is outside it. A read
  or a write there is out of bounds, and so is the fetch when the program counter is
  \<open>0xFFFF\<close>.
\<close>

theorem top_address_out_of_bounds:
  "MEMORY_SIZE = 65535
   \<and> mem_read 0xFFFF s = Inl OutOfBounds
   \<and> mem_write 0xFFFF v s = Inl OutOfBounds
   \<and> step (set_reg R_PC 0xFFFF vm0) = Inl OutOfBounds"
  by (simp add: step_def access_defs enum_defs vm0_def)

section \<open>Stores and jumps\<close>

text \<open>
  C1. \<^verbatim>\<open>STI R1, #1\<close> with \<open>R0 = 0x1111\<close> and \<open>R1 = 0x2222\<close>: the cell the pointer
  names receives the value of \<open>R0\<close>, not that of the source register \<open>R1\<close> of the
  instruction.
\<close>

theorem sti_stores_r0:
  "drop_bit 12 (0xB201 :: u16) = OP_STI \<and> drop_bit 9 (0xB201 :: u16) AND 0x7 = 1
   \<and> registers sti_state 1 = 0x2222 \<and> registers sti_state 0 = 0x1111
   \<and> (\<exists>s'. step sti_state = Inr s' \<and> memory s' 0x4000 = 0x1111)"
  by (simp add: step_def exec_def op_sti_def signExtend_def access_defs enum_defs vm0_def
      sti_state_def)

lemma op_jsr_link:
  "registers (op_jsr instr s) R_R7 = registers s R_PC"
  by (simp add: op_jsr_def Let_def set_reg_def R_R7_def R_PC_def)

lemma op_jsr_long:
  "bit instr 11 \<Longrightarrow>
   registers (op_jsr instr s) R_PC = registers s R_PC + signExtend (instr AND 0x7FF) 11"
  by (simp add: op_jsr_def Let_def set_reg_def R_R7_def R_PC_def drop_bit_and_1_iff)

lemma op_jsr_register:
  "\<not> bit instr 11 \<Longrightarrow>
   registers (op_jsr instr s) R_PC =
     registers s R_PC
     + registers (set_reg R_R7 (registers s R_PC) s) (unat (drop_bit 6 instr AND 0x7))"
  by (simp add: op_jsr_def Let_def set_reg_def R_R7_def R_PC_def drop_bit_and_1_iff)

text \<open>
  C2. \<^verbatim>\<open>JSRR R1\<close> at \<open>0x3000\<close> with \<open>R1 = 0x5000\<close>: \<open>R7\<close> receives the incremented
  program counter \<open>0x3001\<close>, and the program counter becomes \<open>0x3001 + 0x5000 = 0x8001\<close>:
  the register is added to it, where the claim has it set to \<open>0x5000\<close>.
\<close>

theorem jsrr_adds_register_to_pc:
  "drop_bit 12 (0x4040 :: u16) = OP_JSR \<and> \<not> bit (0x4040 :: u16) 11
   \<and> drop_bit 6 (0x4040 :: u16) AND 0x7 = 1
   \<and> registers jsrr_state 1 = 0x5000
   \<and> (\<exists>s'. step jsrr_state = Inr s' \<and> registers s' R_R7 = 0x3001
          \<and> registers s' R_PC = 0x8001 \<and> registers s' R_PC \<noteq> 0x5000)"
  by (simp add: step_def exec_def op_jsr_def signExtend_def access_defs enum_defs vm0_def
      jsrr_state_def bit_iff_odd)

section \<open>Traps\<close>

lemma op_trap_unknown_vector:
  assumes "instr AND 0xFF \<notin> {TRAP_GETC, TRAP_OUT, TRAP_PUTS, TRAP_IN, TRAP_PUTSP, TRAP_HALT}"
  shows "op_trap instr s = Inr s"
  using assms by (simp add: op_trap_def Let_def)

lemma exec_unknown_trap:
  assumes "drop_bit 12 instr = OP_TRAP"
    and "instr AND 0xFF \<notin> {TRAP_GETC, TRAP_OUT, TRAP_PUTS, TRAP_IN, TRAP_PUTSP, TRAP_HALT}"
  shows "exec instr s = Inr s"
  using assms by (simp add: exec_def op_trap_unknown_vector enum_defs)

lemma bad_trap_step1:
  "step bad_trap_state = Inr (set_reg R_PC 0x3001 bad_trap_state)"
  by (simp add: step_def exec_def op_trap_def
      access_defs enum_defs vm0_def bad_trap_state_def)

lemma bad_trap_step2:
  "step (set_reg R_PC 0x3001 bad_trap_state) =
     Inr ((set_reg R_PC 0x3002 bad_trap_state)
            \<lparr>running := False, stdout := [0x44, 0x6F, 0x6E, 0x65, 0x21, 0x0A]\<rparr>)"
  by (simp add: step_def exec_def op_trap_def trap_halt_def printf_def bytes_of_def
      access_defs enum_defs vm0_def bad_trap_state_def)

text \<open>
  C4. \<^verbatim>\<open>TRAP 0xFF\<close> at \<open>0x3000\<close>, followed by \<^verbatim>\<open>TRAP 0x25\<close>: the unknown vector
  changes nothing but the program counter, the machine is still running, and the loop
  goes on to execute the next instruction, which halts and prints \<open>Done!\<close>.
\<close>

theorem unknown_trap_continues:
  "drop_bit 12 (0xF0FF :: u16) = OP_TRAP
   \<and> (0xF0FF :: u16) AND 0xFF \<notin> {TRAP_GETC, TRAP_OUT, TRAP_PUTS, TRAP_IN, TRAP_PUTSP, TRAP_HALT}
   \<and> step bad_trap_state = Inr (set_reg R_PC 0x3001 bad_trap_state)
   \<and> running (set_reg R_PC 0x3001 bad_trap_state)
   \<and> run (Suc (Suc 0)) bad_trap_state =
       Some (Inr ((set_reg R_PC 0x3002 bad_trap_state)
                    \<lparr>running := False, stdout := [0x44, 0x6F, 0x6E, 0x65, 0x21, 0x0A]\<rparr>))"
proof -
  have r: "running bad_trap_state" "running (set_reg R_PC 0x3001 bad_trap_state)"
    by (simp_all add: bad_trap_state_def vm0_def set_reg_def)
  have "drop_bit 12 (0xF0FF :: u16) = OP_TRAP"
    "(0xF0FF :: u16) AND 0xFF \<notin> {TRAP_GETC, TRAP_OUT, TRAP_PUTS, TRAP_IN, TRAP_PUTSP, TRAP_HALT}"
    by (simp_all add: enum_defs)
  then show ?thesis
    by (simp add: bad_trap_step1 bad_trap_step2 r)
qed

text \<open>
  C10. When standard input is at end of file, \<^verbatim>\<open>TRAP_GETC\<close> and \<^verbatim>\<open>TRAP_IN\<close> leave
  \<open>0xFFFF\<close> in \<open>R0\<close>; the instruction returns without a fault and \<^verbatim>\<open>running\<close> is
  unchanged, so the loop goes on.
\<close>

theorem trap_input_eof:
  assumes "stdin s = []" and "drop_bit 12 instr = OP_TRAP"
    and "instr AND 0xFF = TRAP_GETC \<or> instr AND 0xFF = TRAP_IN"
  shows "\<exists>s'. exec instr s = Inr s' \<and> registers s' R_R0 = 0xFFFF \<and> running s' = running s"
  using assms
  by (auto simp add: exec_def op_trap_def trap_getc_def trap_in_def printf_def putc_def EOF_def
      access_defs enum_defs)

theorem trap_input_eof_witness:
  "stdin vm0 = [] \<and> drop_bit 12 (0xF020 :: u16) = OP_TRAP \<and> drop_bit 12 (0xF023 :: u16) = OP_TRAP
   \<and> (0xF020 :: u16) AND 0xFF = TRAP_GETC \<and> (0xF023 :: u16) AND 0xFF = TRAP_IN
   \<and> (\<exists>s'. exec 0xF020 vm0 = Inr s' \<and> registers s' R_R0 = 0xFFFF \<and> running s' = running vm0)
   \<and> (\<exists>s'. exec 0xF023 vm0 = Inr s' \<and> registers s' R_R0 = 0xFFFF \<and> running s' = running vm0)"
proof -
  have a: "stdin vm0 = []" by (simp add: vm0_def)
  have b: "drop_bit 12 (0xF020 :: u16) = OP_TRAP" "drop_bit 12 (0xF023 :: u16) = OP_TRAP"
    by (simp_all add: enum_defs)
  have c: "(0xF020 :: u16) AND 0xFF = TRAP_GETC" "(0xF023 :: u16) AND 0xFF = TRAP_IN"
    by (simp_all add: enum_defs)
  show ?thesis
    using a b c trap_input_eof[OF a b(1) disjI1[OF c(1)]] trap_input_eof[OF a b(2) disjI2[OF c(2)]]
    by simp
qed

section \<open>The keyboard registers\<close>

text \<open>
  C5. A read of the keyboard-status address \<open>0xFE00\<close>: with a key \<open>c\<close> pending, the
  status cell is set to \<open>0x8000\<close> and the data cell \<open>0xFE02\<close> to the code of \<open>c\<close>, the
  key is consumed, and \<open>0x8000\<close> is returned; with no key pending the status cell is set
  to 0 and 0 is returned. So two status reads in a row with no key both return 0, and
  with a key pending the status read has bit 15 set and the data read that follows
  returns the code of the key.
\<close>

theorem mem_read_keyboard_status:
  "(stdin s = c # cs \<longrightarrow>
      mem_read MR_KBSR s =
        Inr (0x8000, s\<lparr>memory := (memory s)(0xFE00 := 0x8000, 0xFE02 := ucast c), stdin := cs\<rparr>))
   \<and> (stdin s = [] \<longrightarrow>
      mem_read MR_KBSR s = Inr (0, s\<lparr>memory := (memory s)(0xFE00 := 0)\<rparr>))
   \<and> (stdin s = [] \<longrightarrow>
      (\<exists>s1 s2. mem_read MR_KBSR s = Inr (0, s1) \<and> mem_read MR_KBSR s1 = Inr (0, s2)))
   \<and> (stdin s = c # cs \<longrightarrow>
      (\<exists>v s1 s2. mem_read MR_KBSR s = Inr (v, s1) \<and> bit v 15
         \<and> mem_read MR_KBDR s1 = Inr (ucast c, s2)))"
  by (simp add: access_defs enum_defs bit_iff_odd)

theorem mem_read_keyboard_status_witness:
  "stdin (vm0\<lparr>stdin := [0x61]\<rparr>) = [0x61] \<and> stdin vm0 = []
   \<and> mem_read MR_KBSR (vm0\<lparr>stdin := [0x61]\<rparr>) =
        Inr (0x8000, vm0\<lparr>memory := (memory vm0)(0xFE00 := 0x8000, 0xFE02 := 0x61)\<rparr>)
   \<and> mem_read MR_KBSR vm0 = Inr (0, vm0\<lparr>memory := (memory vm0)(0xFE00 := 0)\<rparr>)
   \<and> (\<exists>s1 s2. mem_read MR_KBSR vm0 = Inr (0, s1) \<and> mem_read MR_KBSR s1 = Inr (0, s2))
   \<and> (\<exists>v s1 s2. mem_read MR_KBSR (vm0\<lparr>stdin := [0x61]\<rparr>) = Inr (v, s1) \<and> bit v 15
         \<and> mem_read MR_KBDR s1 = Inr (0x61, s2))"
proof -
  have a: "stdin (vm0\<lparr>stdin := [0x61]\<rparr>) = [0x61]" "stdin vm0 = []"
    by (simp_all add: vm0_def)
  show ?thesis
    using a mem_read_keyboard_status[of "vm0\<lparr>stdin := [0x61]\<rparr>" "0x61" "[]"]
      mem_read_keyboard_status[of vm0 0 "[]"]
    by (simp add: vm0_def access_defs enum_defs)
qed

section \<open>Condition flags\<close>

lemma reg_field_less_8: "unat ((x::u16) AND 0x7) < 8"
proof -
  have "x AND 0x7 \<le> 0x7" by (rule word_and_le1)
  then show ?thesis by (simp add: word_le_nat_alt)
qed

lemma drop_bit_15_iff: "(drop_bit 15 (x::u16) \<noteq> 0) = bit x 15"
proof
  assume nz: "drop_bit 15 x \<noteq> 0"
  show "bit x 15"
  proof (rule ccontr)
    assume h: "\<not> bit x 15"
    have "drop_bit 15 x = 0"
    proof (rule bit_word_eqI)
      fix n assume "n < LENGTH(16)"
      have "\<not> bit x (15 + n)"
      proof (cases n)
        case 0 then show ?thesis using h by simp
      next
        case (Suc m)
        then show ?thesis using bit_imp_le_length[of x "15 + n"] by auto
      qed
      then show "bit (drop_bit 15 x) n = bit (0::u16) n"
        by (simp add: bit_drop_bit_eq)
    qed
    then show False using nz by simp
  qed
next
  assume "bit x 15"
  then have "bit (drop_bit 15 x) 0" by (simp add: bit_drop_bit_eq)
  then show "drop_bit 15 x \<noteq> 0" by auto
qed

lemma bit15_nonzero: "bit (x::u16) 15 \<Longrightarrow> x \<noteq> 0"
  by auto

lemma updateFlgs_flags_match:
  assumes "r < 8"
  shows "flags_match r (updateFlgs r s)"
  using assms bit15_nonzero[of "registers s r"]
  by (auto simp add: flags_match_def updateFlgs_def set_reg_def drop_bit_15_iff enum_defs)

lemma op_add_flags: "flags_match (unat (drop_bit 9 instr AND 0x7)) (op_add instr s)"
  by (simp add: op_add_def Let_def updateFlgs_flags_match reg_field_less_8)

lemma op_and_flags: "flags_match (unat (drop_bit 9 instr AND 0x7)) (op_and instr s)"
  by (simp add: op_and_def Let_def updateFlgs_flags_match reg_field_less_8)

lemma op_not_flags: "flags_match (unat (drop_bit 9 instr AND 0x7)) (op_not instr s)"
  by (simp add: op_not_def Let_def updateFlgs_flags_match reg_field_less_8)

lemma op_lea_flags: "flags_match (unat (drop_bit 9 instr AND 0x7)) (op_lea instr s)"
  by (simp add: op_lea_def Let_def updateFlgs_flags_match reg_field_less_8)

lemma op_ld_flags:
  "op_ld instr s = Inr s' \<Longrightarrow> flags_match (unat (drop_bit 9 instr AND 0x7)) s'"
  by (auto simp add: op_ld_def Let_def bindE_def updateFlgs_flags_match reg_field_less_8
      split: sum.splits prod.splits)

lemma op_ldi_flags:
  "op_ldi instr s = Inr s' \<Longrightarrow> flags_match (unat (drop_bit 9 instr AND 0x7)) s'"
  by (auto simp add: op_ldi_def Let_def bindE_def updateFlgs_flags_match reg_field_less_8
      split: sum.splits prod.splits)

lemma op_ldr_flags:
  "op_ldr instr s = Inr s' \<Longrightarrow> flags_match (unat (drop_bit 9 instr AND 0x7)) s'"
  by (auto simp add: op_ldr_def Let_def bindE_def updateFlgs_flags_match reg_field_less_8
      split: sum.splits prod.splits)

lemma mem_read_fault: "mem_read a s = Inl e \<Longrightarrow> e = OutOfBounds"
  by (auto simp add: access_defs split: if_splits sum.splits prod.splits list.splits)

lemma load_faults:
  "op_ld instr s = Inl e \<Longrightarrow> e = OutOfBounds"
  "op_ldi instr s = Inl e \<Longrightarrow> e = OutOfBounds"
  "op_ldr instr s = Inl e \<Longrightarrow> e = OutOfBounds"
  by (auto simp add: op_ld_def op_ldi_def op_ldr_def Let_def bindE_def
      split: sum.splits prod.splits dest: mem_read_fault)

lemma exec_cases:
  "drop_bit 12 instr = OP_ADD \<Longrightarrow> exec instr s = Inr (op_add instr s)"
  "drop_bit 12 instr = OP_AND \<Longrightarrow> exec instr s = Inr (op_and instr s)"
  "drop_bit 12 instr = OP_NOT \<Longrightarrow> exec instr s = Inr (op_not instr s)"
  "drop_bit 12 instr = OP_LD \<Longrightarrow> exec instr s = op_ld instr s"
  "drop_bit 12 instr = OP_LDI \<Longrightarrow> exec instr s = op_ldi instr s"
  "drop_bit 12 instr = OP_LDR \<Longrightarrow> exec instr s = op_ldr instr s"
  "drop_bit 12 instr = OP_LEA \<Longrightarrow> exec instr s = Inr (op_lea instr s)"
  by (simp_all add: exec_def enum_defs)

lemma unat_less_top: "a \<noteq> 0xFFFF \<Longrightarrow> unat (a::u16) < 65535"
proof -
  assume a: "a \<noteq> 0xFFFF"
  have "unat a \<noteq> 65535"
  proof
    assume "unat a = 65535"
    then have "word_of_nat (unat a) = (word_of_nat 65535 :: u16)" by simp
    then show False using a by simp
  qed
  moreover have "unat a < 2 ^ 16" using unsigned_less[of a] by simp
  ultimately show ?thesis by simp
qed

lemma mem_read_plain:
  assumes "a \<noteq> MR_KBSR" "a \<noteq> 0xFFFF"
  shows "mem_read a s = Inr (memory s (unat a), s)"
  using assms unat_less_top[of a]
  by (simp add: mem_read_def get_mem_def MEMORY_SIZE_def UINT16_MAX_def)

lemma mem_read_status:
  "\<exists>v s1. mem_read MR_KBSR s = Inr (v, s1) \<and> (v = 0x8000 \<or> v = 0)"
  by (cases "stdin s") (simp_all add: access_defs enum_defs)

lemma mem_read_returns_iff:
  "(\<exists>v s1. mem_read a s = Inr (v, s1)) = (a \<noteq> 0xFFFF)"
proof (cases "a = MR_KBSR")
  case True
  then show ?thesis using mem_read_status[of s] by (auto simp add: MR_KBSR_def)
next
  case False
  show ?thesis
  proof (cases "a = 0xFFFF")
    case True
    then show ?thesis by (simp add: access_defs enum_defs)
  next
    case False
    then show ?thesis using mem_read_plain[OF \<open>a \<noteq> MR_KBSR\<close>] by simp
  qed
qed

lemma op_ld_returns_iff:
  "(\<exists>s'. op_ld instr s = Inr s')
     = (registers s R_PC + signExtend (instr AND 0x1FF) 9 \<noteq> 0xFFFF)"
proof -
  let ?a = "registers s R_PC + signExtend (instr AND 0x1FF) 9"
  have "(\<exists>s'. op_ld instr s = Inr s') = (\<exists>v s1. mem_read ?a s = Inr (v, s1))"
    by (auto simp add: op_ld_def Let_def bindE_def split: sum.splits)
  then show ?thesis using mem_read_returns_iff[of ?a s] by blast
qed

lemma op_ldr_returns_iff:
  "(\<exists>s'. op_ldr instr s = Inr s')
     = (registers s (unat (drop_bit 6 instr AND 0x7)) + signExtend (instr AND 0x3F) 6 \<noteq> 0xFFFF)"
proof -
  let ?a = "registers s (unat (drop_bit 6 instr AND 0x7)) + signExtend (instr AND 0x3F) 6"
  have "(\<exists>s'. op_ldr instr s = Inr s') = (\<exists>v s1. mem_read ?a s = Inr (v, s1))"
    by (auto simp add: op_ldr_def Let_def bindE_def split: sum.splits)
  then show ?thesis using mem_read_returns_iff[of ?a s] by blast
qed

lemma op_ldi_returns_iff:
  "(\<exists>s'. op_ldi instr s = Inr s')
     = (let a = registers s R_PC + signExtend (instr AND 0x1FF) 9
        in a \<noteq> 0xFFFF \<and> (a = MR_KBSR \<or> memory s (unat a) \<noteq> 0xFFFF))"
proof -
  let ?a = "registers s R_PC + signExtend (instr AND 0x1FF) 9"
  have e: "(\<exists>s'. op_ldi instr s = Inr s')
        = (\<exists>p s1. mem_read ?a s = Inr (p, s1) \<and> (\<exists>v s2. mem_read p s1 = Inr (v, s2)))"
    by (auto simp add: op_ldi_def Let_def bindE_def split: sum.splits)
  show ?thesis
  proof (cases "?a = MR_KBSR")
    case True
    obtain v s1 where r: "mem_read MR_KBSR s = Inr (v, s1)" "v = 0x8000 \<or> v = 0"
      using mem_read_status[of s] by auto
    then have "v \<noteq> 0xFFFF" by auto
    then have "\<exists>w s2. mem_read v s1 = Inr (w, s2)"
      using mem_read_returns_iff[of v s1] by blast
    then show ?thesis using True r(1) by (simp add: e Let_def MR_KBSR_def)
  next
    case False
    show ?thesis
    proof (cases "?a = 0xFFFF")
      case True
      then show ?thesis using mem_read_returns_iff[of ?a s] by (simp add: e Let_def)
    next
      case top: False
      have "mem_read ?a s = Inr (memory s (unat ?a), s)"
        using mem_read_plain[OF False top] .
      then show ?thesis using False top
        by (simp add: e Let_def mem_read_returns_iff)
    qed
  qed
qed

text \<open>
  C6. Let the opcode of \<open>instr\<close> be one of ADD, AND, NOT, LD, LDI, LDR, LEA and \<open>dr\<close>
  its destination field. In every state \<open>s'\<close> the instruction returns, the condition
  register holds one of the three flag values, which are distinct: \<open>FL_ZRO\<close> exactly when
  the destination register is 0, \<open>FL_NEG\<close> exactly when its bit 15 is set, \<open>FL_POS\<close>
  exactly when neither. ADD, AND, NOT and LEA always return a state. A load returns a
  state exactly when the addresses it reads are inside the memory array: LD and LDR
  unless the address is \<open>0xFFFF\<close>, LDI unless the address of the pointer or the pointer
  itself is \<open>0xFFFF\<close>. No instruction of the seven aborts.
\<close>

theorem flags_after_register_write:
  assumes "drop_bit 12 instr \<in> {OP_ADD, OP_AND, OP_NOT, OP_LD, OP_LDI, OP_LDR, OP_LEA}"
    and "dr = unat (drop_bit 9 instr AND 0x7)"
  shows "(\<forall>s'. exec instr s = Inr s' \<longrightarrow>
            registers s' R_COND \<in> {FL_POS, FL_ZRO, FL_NEG}
            \<and> (registers s' R_COND = FL_ZRO) = (registers s' dr = 0)
            \<and> (registers s' R_COND = FL_NEG) = bit (registers s' dr) 15
            \<and> (registers s' R_COND = FL_POS)
                = (registers s' dr \<noteq> 0 \<and> \<not> bit (registers s' dr) 15))
       \<and> (drop_bit 12 instr \<in> {OP_ADD, OP_AND, OP_NOT, OP_LEA} \<longrightarrow> (\<exists>s'. exec instr s = Inr s'))
       \<and> (drop_bit 12 instr = OP_LD \<longrightarrow>
            (\<exists>s'. exec instr s = Inr s')
              = (registers s R_PC + signExtend (instr AND 0x1FF) 9 \<noteq> 0xFFFF))
       \<and> (drop_bit 12 instr = OP_LDI \<longrightarrow>
            (\<exists>s'. exec instr s = Inr s')
              = (let a = registers s R_PC + signExtend (instr AND 0x1FF) 9
                 in a \<noteq> 0xFFFF \<and> (a = MR_KBSR \<or> memory s (unat a) \<noteq> 0xFFFF)))
       \<and> (drop_bit 12 instr = OP_LDR \<longrightarrow>
            (\<exists>s'. exec instr s = Inr s')
              = (registers s (unat (drop_bit 6 instr AND 0x7)) + signExtend (instr AND 0x3F) 6
                   \<noteq> 0xFFFF))
       \<and> exec instr s \<noteq> Inl Abort
       \<and> FL_POS \<noteq> FL_ZRO \<and> FL_POS \<noteq> FL_NEG \<and> FL_ZRO \<noteq> FL_NEG"
proof -
  have a: "flags_match dr s'" if "exec instr s = Inr s'" for s'
    using assms that
    by (auto simp add: exec_cases op_add_flags op_and_flags op_not_flags op_lea_flags
        op_ld_flags op_ldi_flags op_ldr_flags)
  have b: "drop_bit 12 instr \<in> {OP_ADD, OP_AND, OP_NOT, OP_LEA} \<longrightarrow> (\<exists>s'. exec instr s = Inr s')"
    by (auto simp add: exec_cases)
  have c: "exec instr s \<noteq> Inl Abort"
    using assms(1) by (auto simp add: exec_cases dest: load_faults)
  have d: "FL_POS \<noteq> FL_ZRO \<and> FL_POS \<noteq> FL_NEG \<and> FL_ZRO \<noteq> FL_NEG"
    by (simp add: enum_defs)
  have ld: "drop_bit 12 instr = OP_LD \<longrightarrow>
            (\<exists>s'. exec instr s = Inr s')
              = (registers s R_PC + signExtend (instr AND 0x1FF) 9 \<noteq> 0xFFFF)"
    by (simp add: exec_cases op_ld_returns_iff)
  have ldi: "drop_bit 12 instr = OP_LDI \<longrightarrow>
            (\<exists>s'. exec instr s = Inr s')
              = (let a = registers s R_PC + signExtend (instr AND 0x1FF) 9
                 in a \<noteq> 0xFFFF \<and> (a = MR_KBSR \<or> memory s (unat a) \<noteq> 0xFFFF))"
    by (simp add: exec_cases op_ldi_returns_iff)
  have ldr: "drop_bit 12 instr = OP_LDR \<longrightarrow>
            (\<exists>s'. exec instr s = Inr s')
              = (registers s (unat (drop_bit 6 instr AND 0x7)) + signExtend (instr AND 0x3F) 6
                   \<noteq> 0xFFFF)"
    by (simp add: exec_cases op_ldr_returns_iff)
  show ?thesis using a b c d ld ldi ldr unfolding flags_match_def by blast
qed

text \<open>
  The witness runs one instruction of each kind. \<open>0x1061\<close> is \<^verbatim>\<open>ADD R0, R1, #1\<close>, the
  example of the specification: with \<open>R1 = 0x7FFF\<close> the sum wraps to \<open>0x8000\<close> and the
  flag is \<open>FL_NEG\<close>. On \<open>load_state\<close>, LD and LDR load \<open>0x8001\<close> (\<open>FL_NEG\<close>) and LDI
  loads the zero cell \<open>0x8001\<close> (\<open>FL_ZRO\<close>).
\<close>

lemma load_state_ld:
  "exec 0x2401 load_state = Inr (set_reg R_COND FL_NEG (set_reg 2 0x8001 load_state))"
  by (simp add: exec_def op_ld_def updateFlgs_def signExtend_def access_defs load_state_def
      vm0_def enum_defs)

lemma load_state_ldi:
  "exec 0xA601 load_state = Inr (set_reg R_COND FL_ZRO (set_reg 3 0 load_state))"
  by (simp add: exec_def op_ldi_def updateFlgs_def signExtend_def access_defs load_state_def
      vm0_def enum_defs)

lemma load_state_ldr:
  "exec 0x6842 load_state = Inr (set_reg R_COND FL_NEG (set_reg 4 0x8001 load_state))"
  by (simp add: exec_def op_ldr_def updateFlgs_def signExtend_def access_defs load_state_def
      vm0_def enum_defs)

theorem flags_after_register_write_witness:
  "drop_bit 12 (0x1061 :: u16) = OP_ADD \<and> (0::nat) = unat (drop_bit 9 (0x1061 :: u16) AND 0x7)
   \<and> exec 0x1061 (set_reg 1 0x7FFF vm0)
       = Inr (set_reg R_COND FL_NEG (set_reg 0 0x8000 (set_reg 1 0x7FFF vm0)))
   \<and> registers (set_reg R_COND FL_NEG (set_reg 0 0x8000 (set_reg 1 0x7FFF vm0))) R_COND = FL_NEG
   \<and> bit (registers (set_reg R_COND FL_NEG (set_reg 0 0x8000 (set_reg 1 0x7FFF vm0))) 0) 15
   \<and> drop_bit 12 (0x2401 :: u16) = OP_LD \<and> (2::nat) = unat (drop_bit 9 (0x2401 :: u16) AND 0x7)
   \<and> registers load_state R_PC + signExtend (0x2401 AND 0x1FF) 9 = 0x3002
   \<and> exec 0x2401 load_state = Inr (set_reg R_COND FL_NEG (set_reg 2 0x8001 load_state))
   \<and> drop_bit 12 (0xA601 :: u16) = OP_LDI \<and> (3::nat) = unat (drop_bit 9 (0xA601 :: u16) AND 0x7)
   \<and> registers load_state R_PC + signExtend (0xA601 AND 0x1FF) 9 = 0x3002
   \<and> memory load_state 0x3002 = 0x8001
   \<and> exec 0xA601 load_state = Inr (set_reg R_COND FL_ZRO (set_reg 3 0 load_state))
   \<and> drop_bit 12 (0x6842 :: u16) = OP_LDR \<and> (4::nat) = unat (drop_bit 9 (0x6842 :: u16) AND 0x7)
   \<and> registers load_state (unat (drop_bit 6 (0x6842 :: u16) AND 0x7))
        + signExtend (0x6842 AND 0x3F) 6 = 0x3002
   \<and> exec 0x6842 load_state = Inr (set_reg R_COND FL_NEG (set_reg 4 0x8001 load_state))"
proof -
  have op: "drop_bit 12 (0x1061 :: u16) = OP_ADD" "drop_bit 12 (0x2401 :: u16) = OP_LD"
    "drop_bit 12 (0xA601 :: u16) = OP_LDI" "drop_bit 12 (0x6842 :: u16) = OP_LDR"
    by (simp_all add: enum_defs)
  have mem: "drop_bit 12 (0x1061 :: u16) \<in> {OP_ADD, OP_AND, OP_NOT, OP_LD, OP_LDI, OP_LDR, OP_LEA}"
    "drop_bit 12 (0x2401 :: u16) \<in> {OP_ADD, OP_AND, OP_NOT, OP_LD, OP_LDI, OP_LDR, OP_LEA}"
    "drop_bit 12 (0xA601 :: u16) \<in> {OP_ADD, OP_AND, OP_NOT, OP_LD, OP_LDI, OP_LDR, OP_LEA}"
    "drop_bit 12 (0x6842 :: u16) \<in> {OP_ADD, OP_AND, OP_NOT, OP_LD, OP_LDI, OP_LDR, OP_LEA}"
    by (simp_all add: enum_defs)
  have dr: "(0::nat) = unat (drop_bit 9 (0x1061 :: u16) AND 0x7)"
    "(2::nat) = unat (drop_bit 9 (0x2401 :: u16) AND 0x7)"
    "(3::nat) = unat (drop_bit 9 (0xA601 :: u16) AND 0x7)"
    "(4::nat) = unat (drop_bit 9 (0x6842 :: u16) AND 0x7)"
    by simp_all
  have ad: "registers load_state R_PC + signExtend (0x2401 AND 0x1FF) 9 = 0x3002"
    "registers load_state R_PC + signExtend (0xA601 AND 0x1FF) 9 = 0x3002"
    "memory load_state 0x3002 = 0x8001"
    "registers load_state (unat (drop_bit 6 (0x6842 :: u16) AND 0x7))
        + signExtend (0x6842 AND 0x3F) 6 = 0x3002"
    by (simp_all add: load_state_def vm0_def signExtend_def enum_defs)
  have e: "exec 0x1061 (set_reg 1 0x7FFF vm0)
       = Inr (set_reg R_COND FL_NEG (set_reg 0 0x8000 (set_reg 1 0x7FFF vm0)))"
    by (simp add: exec_def op_add_def updateFlgs_def signExtend_def set_reg_def vm0_def enum_defs)
  have f: "registers (set_reg R_COND FL_NEG (set_reg 0 0x8000 (set_reg 1 0x7FFF vm0))) R_COND = FL_NEG"
    "bit (registers (set_reg R_COND FL_NEG (set_reg 0 0x8000 (set_reg 1 0x7FFF vm0))) 0) 15"
    by (simp_all add: set_reg_def enum_defs bit_iff_odd)
  note t1 = flags_after_register_write[OF mem(1) dr(1), of "set_reg 1 0x7FFF vm0"]
  note t2 = flags_after_register_write[OF mem(2) dr(2), of load_state]
  note t3 = flags_after_register_write[OF mem(3) dr(3), of load_state]
  note t4 = flags_after_register_write[OF mem(4) dr(4), of load_state]
  show ?thesis
    using t1 t2 t3 t4 op dr ad e f load_state_ld load_state_ldi load_state_ldr
    by blast
qed


section \<open>String output\<close>

lemma puts_loop_string:
  assumes "c \<le> n" "n < MEMORY_SIZE" "memory s n = 0" "\<forall>i\<in>set [c..<n]. memory s i \<noteq> 0"
  shows "puts_loop c s = Inr (s\<lparr>stdout := stdout s @ map (\<lambda>i. ucast (memory s i)) [c..<n]\<rparr>)"
  using assms
proof (induction "n - c" arbitrary: c s)
  case 0
  then have "c = n" by simp
  then show ?case using "0.prems" by (subst puts_loop.simps) simp
next
  case (Suc k)
  then have lt: "c < n" by simp
  let ?s = "putc (ucast (memory s c)) s"
  have m: "memory ?s = memory s" by (simp add: putc_def)
  have nz: "memory s c \<noteq> 0" using Suc.prems(4) lt by simp
  have "puts_loop (Suc c) ?s
        = Inr (?s\<lparr>stdout := stdout ?s @ map (\<lambda>i. ucast (memory ?s i)) [Suc c..<n]\<rparr>)"
    using Suc.hyps(2) Suc.prems lt by (intro Suc.hyps(1)) (auto simp add: m)
  moreover have "puts_loop c s = puts_loop (Suc c) ?s"
    using lt Suc.prems(2) nz by (subst puts_loop.simps) simp
  ultimately show ?case using lt
    by (simp add: upt_conv_Cons putc_def)
qed

lemma puts_loop_unterminated:
  assumes "\<forall>i. c \<le> i \<and> i < MEMORY_SIZE \<longrightarrow> memory s i \<noteq> 0"
  shows "puts_loop c s = Inl OutOfBounds"
  using assms
proof (induction c s rule: puts_loop.induct)
  case (1 c s)
  show ?case
  proof (cases "c < MEMORY_SIZE")
    case True
    then have nz: "memory s c \<noteq> 0" using "1.prems" by simp
    have "puts_loop (Suc c) (putc (ucast (memory s c)) s) = Inl OutOfBounds"
      using "1.prems" by (intro "1.IH"[OF True nz]) (simp add: putc_def)
    then show ?thesis using True nz by (subst puts_loop.simps) simp
  next
    case False
    then show ?thesis by (subst puts_loop.simps) simp
  qed
qed

lemma putsp_step:
  assumes "c < MEMORY_SIZE" "memory s c \<noteq> 0"
  shows "putsp_loop c s = putsp_loop (Suc c) (s\<lparr>stdout := stdout s @ packed_chars (memory s c)\<rparr>)"
proof -
  have "(if (ucast (drop_bit 8 (memory s c)) :: byte) \<noteq> 0
         then putc (ucast (drop_bit 8 (memory s c))) (putc (ucast (memory s c AND 0xFF)) s)
         else putc (ucast (memory s c AND 0xFF)) s)
        = s\<lparr>stdout := stdout s @ packed_chars (memory s c)\<rparr>"
    by (simp only: putc_def packed_chars_def) simp
  then show ?thesis
    using assms by (subst putsp_loop.simps) (simp only: Let_def if_True simp_thms)
qed

lemma putsp_loop_string:
  assumes "c \<le> n" "n < MEMORY_SIZE" "memory s n = 0" "\<forall>i\<in>set [c..<n]. memory s i \<noteq> 0"
  shows "putsp_loop c s
         = Inr (s\<lparr>stdout := stdout s @ concat (map (\<lambda>i. packed_chars (memory s i)) [c..<n])\<rparr>)"
  using assms
proof (induction "n - c" arbitrary: c s)
  case 0
  then have "c = n" by simp
  then show ?case using "0.prems" by (subst putsp_loop.simps) simp
next
  case (Suc k)
  then have lt: "c < n" by simp
  let ?s = "s\<lparr>stdout := stdout s @ packed_chars (memory s c)\<rparr>"
  have m: "memory ?s = memory s" by simp
  have nz: "memory s c \<noteq> 0" using Suc.prems(4) lt by simp
  have k: "k = n - Suc c" using Suc.hyps(2) by simp
  have rest: "\<forall>i\<in>set [Suc c..<n]. memory ?s i \<noteq> 0"
    using Suc.prems(4) by (simp add: m)
  have "putsp_loop (Suc c) ?s
        = Inr (?s\<lparr>stdout := stdout ?s
                 @ concat (map (\<lambda>i. packed_chars (memory ?s i)) [Suc c..<n])\<rparr>)"
    using lt Suc.prems(2,3) by (intro Suc.hyps(1)[OF k _ _ _ rest]) simp_all
  moreover have "putsp_loop c s = putsp_loop (Suc c) ?s"
    using lt Suc.prems(2) nz by (intro putsp_step) simp_all
  ultimately show ?case using lt
    by (simp add: upt_conv_Cons)
qed


lemma putsp_loop_unterminated:
  assumes "\<forall>i. c \<le> i \<and> i < MEMORY_SIZE \<longrightarrow> memory s i \<noteq> 0"
  shows "putsp_loop c s = Inl OutOfBounds"
  using assms
proof (induction "MEMORY_SIZE - c" arbitrary: c s)
  case 0
  then show ?case by (subst putsp_loop.simps) simp
next
  case (Suc k)
  then have lt: "c < MEMORY_SIZE" by simp
  then have nz: "memory s c \<noteq> 0" using Suc.prems by simp
  let ?s = "s\<lparr>stdout := stdout s @ packed_chars (memory s c)\<rparr>"
  have k: "k = MEMORY_SIZE - Suc c" using Suc.hyps(2) by simp
  have "putsp_loop (Suc c) ?s = Inl OutOfBounds"
    using Suc.prems by (intro Suc.hyps(1)[OF k]) simp
  then show ?case by (simp only: putsp_step[OF lt nz])
qed

text \<open>
  C9, as the code has it. Let the string that starts at the cell \<open>R0\<close> names end inside
  the array: the cells from \<open>c\<close> up to \<open>n\<close> are not zero and the cell \<open>n\<close> is. Then
  \<^verbatim>\<open>TRAP_PUTS\<close> returns the state it was given with the low byte of each of these
  cells appended to the output, and \<^verbatim>\<open>TRAP_PUTSP\<close> the same with the packed bytes of
  each cell. The cells are read as they are stored, also at \<open>0xFE00\<close> and \<open>0xFE02\<close>;
  memory, the registers and the pending input are those of the state before.
\<close>

theorem puts_putsp_frame:
  assumes "c = unat (registers s R_R0)"
    and "c \<le> n" and "n < MEMORY_SIZE" and "memory s n = 0"
    and "\<forall>i\<in>set [c..<n]. memory s i \<noteq> 0"
  shows "trap_puts s = Inr (s\<lparr>stdout := stdout s @ map (\<lambda>i. ucast (memory s i)) [c..<n]\<rparr>)
       \<and> trap_putsp s
           = Inr (s\<lparr>stdout := stdout s @ concat (map (\<lambda>i. packed_chars (memory s i)) [c..<n])\<rparr>)
       \<and> op_trap 0xF022 s = trap_puts s \<and> op_trap 0xF024 s = trap_putsp s"
proof -
  have "trap_puts s = Inr (s\<lparr>stdout := stdout s @ map (\<lambda>i. ucast (memory s i)) [c..<n]\<rparr>)"
    unfolding trap_puts_def assms(1)[symmetric]
    by (rule puts_loop_string[OF assms(2-5)])
  moreover have "trap_putsp s
           = Inr (s\<lparr>stdout := stdout s @ concat (map (\<lambda>i. packed_chars (memory s i)) [c..<n])\<rparr>)"
    unfolding trap_putsp_def assms(1)[symmetric]
    by (rule putsp_loop_string[OF assms(2-5)])
  moreover have "op_trap 0xF022 s = trap_puts s" "op_trap 0xF024 s = trap_putsp s"
    by (simp_all add: op_trap_def
        TRAP_GETC_def TRAP_OUT_def TRAP_PUTS_def TRAP_IN_def TRAP_PUTSP_def)
  ultimately show ?thesis by simp
qed

theorem puts_putsp_frame_witness:
  "(0xFDFF::nat) = unat (registers puts_state R_R0) \<and> (0xFDFF::nat) \<le> 0xFE02
   \<and> (0xFE02::nat) < MEMORY_SIZE \<and> memory puts_state 0xFE02 = 0
   \<and> memory puts_state 0xFDFF \<noteq> 0 \<and> memory puts_state 0xFE00 \<noteq> 0
   \<and> memory puts_state 0xFE01 \<noteq> 0
   \<and> stdin puts_state = [0x61]
   \<and> trap_puts puts_state = Inr (puts_state\<lparr>stdout := [0x48, 0x21, 0x4B]\<rparr>)
   \<and> trap_putsp puts_state = Inr (puts_state\<lparr>stdout := [0x48, 0x49, 0x21, 0x4B, 0x4A]\<rparr>)"
proof -
  have a: "(0xFDFF::nat) = unat (registers puts_state R_R0)"
    by (simp add: puts_state_def vm0_def R_R0_def R_PC_def)
  have b: "(0xFDFF::nat) \<le> 0xFE02" "(0xFE02::nat) < MEMORY_SIZE" "memory puts_state 0xFE02 = 0"
    by (simp_all add: puts_state_def vm0_def MEMORY_SIZE_def UINT16_MAX_def)
  have l: "[0xFDFF..<0xFE02] = [0xFDFF, 0xFE00, 0xFE01::nat]"
    by (simp add: upt_conv_Cons)
  have c: "\<forall>i\<in>set [0xFDFF..<0xFE02]. memory puts_state i \<noteq> 0"
    unfolding l by (simp add: puts_state_def vm0_def)
  have m: "memory puts_state 0xFDFF = 0x4948" "memory puts_state 0xFE00 = 0x0021"
    "memory puts_state 0xFE01 = 0x4A4B" "stdin puts_state = [0x61]" "stdout puts_state = []"
    by (simp_all add: puts_state_def vm0_def)
  show ?thesis
    using a b puts_putsp_frame[OF a b c]
    unfolding l
    by (simp add: m packed_chars_def)
qed


text \<open>
  C9, as the claim states it, for every starting address, fails. The loops follow the
  pointer until they meet a zero cell and have no other bound: where no zero cell
  follows, as from \<open>0x3000\<close> in a memory full of \<open>0x41\<close> or from the last cell
  \<open>0xFFFE\<close> when it is not zero, and where \<open>R0\<close> is \<open>0xFFFF\<close>, both routines read
  outside the array instead of returning.
\<close>

theorem puts_runs_off_the_array:
  "trap_puts unterminated_state = Inl OutOfBounds
   \<and> trap_putsp unterminated_state = Inl OutOfBounds
   \<and> trap_puts last_cell_state = Inl OutOfBounds
   \<and> trap_putsp last_cell_state = Inl OutOfBounds
   \<and> trap_puts (set_reg R_R0 0xFFFF vm0) = Inl OutOfBounds
   \<and> trap_putsp (set_reg R_R0 0xFFFF vm0) = Inl OutOfBounds"
proof -
  have a: "\<forall>i. c \<le> i \<and> i < MEMORY_SIZE \<longrightarrow> memory unterminated_state i \<noteq> 0" for c
    by (simp add: unterminated_state_def)
  have b: "\<forall>i. 0xFFFE \<le> i \<and> i < MEMORY_SIZE \<longrightarrow> memory last_cell_state i \<noteq> 0"
    by (auto simp add: last_cell_state_def vm0_def MEMORY_SIZE_def UINT16_MAX_def)
  have r: "unat (registers last_cell_state R_R0) = 0xFFFE"
    by (simp add: last_cell_state_def R_R0_def R_PC_def)
  have c: "\<forall>i. unat (registers (set_reg R_R0 0xFFFF vm0) R_R0) \<le> i \<and> i < MEMORY_SIZE
             \<longrightarrow> memory (set_reg R_R0 0xFFFF vm0) i \<noteq> 0"
    by (auto simp add: set_reg_def R_R0_def MEMORY_SIZE_def UINT16_MAX_def)
  show ?thesis
    unfolding trap_puts_def trap_putsp_def
    using puts_loop_unterminated[OF a] putsp_loop_unterminated[OF a]
      puts_loop_unterminated[OF b] putsp_loop_unterminated[OF b]
      puts_loop_unterminated[OF c] putsp_loop_unterminated[OF c]
    by (simp add: r)
qed

section \<open>The image-loading loop\<close>

lemma readImage_log:
  "readImage fs p s = (ok, s') \<Longrightarrow>
     fopen_log s' = fopen_log s @ [p] \<and> stdout s' = stdout s \<and> ok = (fs p \<noteq> None)"
  by (auto simp add: readImage_def readImageFile_def Let_def
      split: option.splits list.splits prod.splits)

lemma load_loop_all_loaded:
  assumes "\<forall>p\<in>set ps. fs p \<noteq> None"
  shows "\<exists>s'. load_loop fs ps s = Inr s' \<and> fopen_log s' = fopen_log s @ ps \<and> stdout s' = stdout s"
  using assms
proof (induction ps arbitrary: s)
  case Nil
  then show ?case by simp
next
  case (Cons p ps)
  obtain ok s1 where r: "readImage fs p s = (ok, s1)" by (cases "readImage fs p s")
  from readImage_log[OF r] Cons.prems
  have s1: "fopen_log s1 = fopen_log s @ [p]" "stdout s1 = stdout s" "ok" by auto
  from Cons.IH[of s1] Cons.prems obtain s' where
    "load_loop fs ps s1 = Inr s'" "fopen_log s' = fopen_log s1 @ ps" "stdout s' = stdout s1"
    by auto
  then show ?case using r s1 by simp
qed

lemma load_loop_first_failure:
  assumes "\<forall>p\<in>set ok. fs p \<noteq> None" and "fs bad = None"
  shows "\<exists>s'. load_loop fs (ok @ bad # rest) s = Inl (1, s')
           \<and> fopen_log s' = fopen_log s @ ok @ [bad]
           \<and> stdout s' = stdout s @ bytes_of (''Failed to load image: '' @ bad @ [CHR 0x0A])"
  using assms
proof (induction ok arbitrary: s)
  case Nil
  obtain k s1 where r: "readImage fs bad s = (k, s1)" by (cases "readImage fs bad s")
  from readImage_log[OF r] Nil.prems
  have "fopen_log s1 = fopen_log s @ [bad]" "stdout s1 = stdout s" "\<not> k" by auto
  then show ?case using r by (simp add: printf_def)
next
  case (Cons p ps)
  obtain k s1 where r: "readImage fs p s = (k, s1)" by (cases "readImage fs p s")
  from readImage_log[OF r] Cons.prems
  have s1: "fopen_log s1 = fopen_log s @ [p]" "stdout s1 = stdout s" "k" by auto
  from Cons.IH[of s1] Cons.prems obtain s' where
    "load_loop fs (ps @ bad # rest) s1 = Inl (1, s')"
    "fopen_log s' = fopen_log s1 @ ps @ [bad]"
    "stdout s' = stdout s1 @ bytes_of (''Failed to load image: '' @ bad @ [CHR 0x0A])"
    by auto
  then show ?case using r s1 by simp
qed

text \<open>
  C8, as the code has it. The paths are tried in the order of the command line. When
  the paths \<open>ok\<close> load and the next one, \<open>bad\<close>, does not, the process exits with
  status 1 having opened exactly \<open>ok\<close> and \<open>bad\<close> and having reported the failure of
  \<open>bad\<close>; the paths after it are not opened. When every path loads, all are opened, in
  order, nothing is reported and the loop is left normally.
\<close>

theorem load_stops_at_first_failure:
  "((\<forall>p\<in>set ok. fs p \<noteq> None) \<and> fs bad = None \<longrightarrow>
      (\<exists>s'. main_load fs (prog # ok @ bad # rest) s = Inl (1, s')
         \<and> fopen_log s' = fopen_log s @ ok @ [bad]
         \<and> stdout s' = stdout s @ bytes_of (''Failed to load image: '' @ bad @ [CHR 0x0A])))
   \<and> ((\<forall>p\<in>set ps. fs p \<noteq> None) \<and> ps \<noteq> [] \<longrightarrow>
      (\<exists>s'. main_load fs (prog # ps) s = Inr s'
         \<and> fopen_log s' = fopen_log s @ ps \<and> stdout s' = stdout s))"
proof -
  have "length (prog # ok @ bad # rest) \<ge> 2" by simp
  then have a: "main_load fs (prog # ok @ bad # rest) s = load_loop fs (ok @ bad # rest) s"
    by (simp add: main_load_def)
  have b: "main_load fs (prog # ps) s = load_loop fs ps s" if "ps \<noteq> []"
    using that by (cases ps) (simp_all add: main_load_def)
  show ?thesis
    using load_loop_first_failure[of ok fs bad rest s] load_loop_all_loaded[of ps fs s] a b
    by auto
qed

text \<open>
  C8, as the claim states it, fails: of the three paths \<^verbatim>\<open>a.obj\<close>, \<^verbatim>\<open>b.obj\<close>,
  \<^verbatim>\<open>c.obj\<close>, where only the last exists, the first is opened and reported and the
  process exits with status 1; \<^verbatim>\<open>b.obj\<close> is never tried nor its failure reported, and
  \<^verbatim>\<open>c.obj\<close> is never loaded.
\<close>

theorem later_images_not_attempted:
  "fs_c ''a.obj'' = None \<and> fs_c ''b.obj'' = None \<and> fs_c ''c.obj'' \<noteq> None
   \<and> (\<exists>s'. main_load fs_c [''main.exe'', ''a.obj'', ''b.obj'', ''c.obj''] vm0 = Inl (1, s')
          \<and> fopen_log s' = [''a.obj'']
          \<and> ''b.obj'' \<notin> set (fopen_log s') \<and> ''c.obj'' \<notin> set (fopen_log s')
          \<and> stdout s' = bytes_of (''Failed to load image: a.obj'' @ [CHR 0x0A])
          \<and> memory s' = memory vm0)"
  by (simp add: main_load_def readImage_def printf_def fs_c_def vm0_def)

theorem load_stops_at_first_failure_witness:
  "fs_a ''a.obj'' \<noteq> None \<and> fs_a ''b.obj'' = None
   \<and> (\<exists>s'. main_load fs_a [''main.exe'', ''a.obj'', ''b.obj'', ''c.obj''] vm0 = Inl (1, s')
          \<and> fopen_log s' = [''a.obj'', ''b.obj'']
          \<and> stdout s' = bytes_of (''Failed to load image: b.obj'' @ [CHR 0x0A]))
   \<and> (\<exists>s'. main_load fs_a [''main.exe'', ''a.obj''] vm0 = Inr s'
          \<and> fopen_log s' = [''a.obj''] \<and> stdout s' = [] \<and> memory s' 0x3000 = 0xF025
          \<and> memory s' 0x3001 = 0x0041)"
proof -
  have a: "\<forall>p\<in>set [''a.obj'']. fs_a p \<noteq> None" "fs_a ''b.obj'' = None"
    by (simp_all add: fs_a_def)
  have m: "\<exists>s'. main_load fs_a [''main.exe'', ''a.obj''] vm0 = Inr s' \<and> memory s' 0x3000 = 0xF025
             \<and> memory s' 0x3001 = 0x0041"
    by (simp add: main_load_def readImage_def readImageFile_def swap16_def word_of_bytes_def
        fs_a_def vm0_def
        UINT16_MAX_def)
  show ?thesis
    using a m
      load_stops_at_first_failure[of "[''a.obj'']" fs_a "''b.obj''" "''main.exe''" "[''c.obj'']" vm0 "[''a.obj'']"]
    by (auto simp add: vm0_def)
qed


end
